theory Spec2Isabelle
  imports Main
begin

section \<open>gotable: tables and CSV from Go structs\<close>

text \<open>
  A shallow embedding of \<^verbatim>\<open>gotable.go\<close>. Go strings are byte sequences, so a Go
  \<^verbatim>\<open>string\<close> is a HOL \<open>string\<close> (a list of 8-bit characters) and Go's \<^verbatim>\<open>len\<close> is
  \<open>length\<close>. A \<^verbatim>\<open>map[string]string\<close> is a partial map; reading a missing key gives the
  empty string, as in Go. Standard output is the string of all bytes printed so far.
\<close>

subsection \<open>Constants, errors, maps\<close>

definition TABLE_HEADER_TAG :: string where
  "TABLE_HEADER_TAG = ''header''"

definition NOT_SUPPORTED :: string where
  "NOT_SUPPORTED = ''NO_SUPPORT''"

text \<open>A Go \<^verbatim>\<open>error\<close> value, identified by its message; \<^verbatim>\<open>nil\<close> is \<open>None\<close>.\<close>

datatype error = Error string

type_synonym smap = "string \<rightharpoonup> string"

text \<open>\<^verbatim>\<open>m[k]\<close> on a \<^verbatim>\<open>map[string]string\<close>: the zero value \<^verbatim>\<open>""\<close> when the key is absent.\<close>

definition index :: "smap \<Rightarrow> string \<Rightarrow> string" where
  "index m k = (case m k of None \<Rightarrow> [] | Some v \<Rightarrow> v)"

subsection \<open>Reflection: kinds and field values\<close>

text \<open>The enumeration \<^verbatim>\<open>reflect.Kind\<close>, in its declared order.\<close>

datatype kind =
    KInvalid | KBool
  | KInt | KInt8 | KInt16 | KInt32 | KInt64
  | KUint | KUint8 | KUint16 | KUint32 | KUint64 | KUintptr
  | KFloat32 | KFloat64 | KComplex64 | KComplex128
  | KArray | KChan | KFunc | KInterface | KMap | KPointer | KSlice
  | KString | KStruct | KUnsafePointer

text \<open>
  The integer types of Go, by size: \<^verbatim>\<open>int\<close>, \<^verbatim>\<open>int8\<close>, ... and \<^verbatim>\<open>uint\<close>, \<^verbatim>\<open>uint8\<close>, ...,
  \<^verbatim>\<open>uintptr\<close> (an unsigned integer type wide enough for a pointer's bits); then the
  types of every other kind a field can have.
\<close>

datatype intType = TInt | TInt8 | TInt16 | TInt32 | TInt64

datatype uintType = TUint | TUint8 | TUint16 | TUint32 | TUint64 | TUintptr

text \<open>
  The value of a struct field as \<^verbatim>\<open>reflect.Value\<close> shows it: the payload that
  \<^verbatim>\<open>String()\<close>, \<^verbatim>\<open>Int()\<close>, \<^verbatim>\<open>Uint()\<close> and \<^verbatim>\<open>Bool()\<close> read, or only the kind for a field
  of any other type (floats, slices, maps, pointers, nested structs, ...).
\<close>

datatype otherType =
    TFloat32 | TFloat64 | TComplex64 | TComplex128
  | TArray | TChan | TFunc | TInterface | TMap | TPointer | TSlice | TStruct | TUnsafePointer

datatype rvalue =
    VString (String_of: string)
  | VInt intType (Int_of: int)
  | VUint uintType (Uint_of: nat)
  | VBool (Bool_of: bool)
  | VOther otherType

fun Kind :: "rvalue \<Rightarrow> kind" where
  "Kind (VString s) = KString"
| "Kind (VInt TInt i) = KInt"
| "Kind (VInt TInt8 i) = KInt8"
| "Kind (VInt TInt16 i) = KInt16"
| "Kind (VInt TInt32 i) = KInt32"
| "Kind (VInt TInt64 i) = KInt64"
| "Kind (VUint TUint u) = KUint"
| "Kind (VUint TUint8 u) = KUint8"
| "Kind (VUint TUint16 u) = KUint16"
| "Kind (VUint TUint32 u) = KUint32"
| "Kind (VUint TUint64 u) = KUint64"
| "Kind (VUint TUintptr u) = KUintptr"
| "Kind (VBool b) = KBool"
| "Kind (VOther TFloat32) = KFloat32"
| "Kind (VOther TFloat64) = KFloat64"
| "Kind (VOther TComplex64) = KComplex64"
| "Kind (VOther TComplex128) = KComplex128"
| "Kind (VOther TArray) = KArray"
| "Kind (VOther TChan) = KChan"
| "Kind (VOther TFunc) = KFunc"
| "Kind (VOther TInterface) = KInterface"
| "Kind (VOther TMap) = KMap"
| "Kind (VOther TPointer) = KPointer"
| "Kind (VOther TSlice) = KSlice"
| "Kind (VOther TStruct) = KStruct"
| "Kind (VOther TUnsafePointer) = KUnsafePointer"

text \<open>
  A value behind the interface \<^verbatim>\<open>TableStruct\<close>: a struct, with its fields in declared
  order (name and value), and its method \<^verbatim>\<open>GetHeader\<close>, which returns a header and an
  error. \<^verbatim>\<open>TableRow\<close> asks \<^verbatim>\<open>NumField\<close> of the value's type, which Go defines on
  structs only, so the records of this model are the struct values.
\<close>

datatype tableStruct =
  TableStruct (Fields: "(string \<times> rvalue) list") (GetHeader: "string \<Rightarrow> string \<times> error option")

text \<open>\<^verbatim>\<open>tbl.FieldByName(name)\<close>: the first field of that name, invalid when there is none.\<close>

definition FieldByName :: "tableStruct \<Rightarrow> string \<Rightarrow> rvalue option" where
  "FieldByName tbl name = map_of (Fields tbl) name"

subsection \<open>The part of package fmt that the code uses\<close>

text \<open>\<^verbatim>\<open>fmt.Sprintf("%d", n)\<close> for an unsigned and for a signed argument.\<close>

fun Sprintf_u :: "nat \<Rightarrow> string" where
  "Sprintf_u n =
     (if n < 10 then [''0123456789'' ! n]
      else Sprintf_u (n div 10) @ [''0123456789'' ! (n mod 10)])"

declare Sprintf_u.simps [simp del]

definition Sprintf_d :: "int \<Rightarrow> string" where
  "Sprintf_d i = (if i < 0 then CHR ''-'' # Sprintf_u (nat (- i)) else Sprintf_u (nat i))"

text \<open>
  \<^verbatim>\<open>utf8.RuneCountInString\<close>, which \<^verbatim>\<open>fmt\<close> uses to measure a string before padding
  it. \<open>first\<close> is the table of lead bytes: for a lead byte of a multi-byte sequence the
  sequence's size and the range accepted for its second byte, \<open>None\<close> for a byte that
  cannot start one. An invalid or short sequence counts as one rune of one byte.
\<close>

definition first :: "nat \<Rightarrow> (nat \<times> nat \<times> nat) option" where
  "first c =
     (if c < 0xC2 then None
      else if c < 0xE0 then Some (2, 0x80, 0xBF)
      else if c = 0xE0 then Some (3, 0xA0, 0xBF)
      else if c < 0xED then Some (3, 0x80, 0xBF)
      else if c = 0xED then Some (3, 0x80, 0x9F)
      else if c < 0xF0 then Some (3, 0x80, 0xBF)
      else if c = 0xF0 then Some (4, 0x90, 0xBF)
      else if c < 0xF4 then Some (4, 0x80, 0xBF)
      else if c = 0xF4 then Some (4, 0x80, 0x8F)
      else None)"

definition inRange :: "char \<Rightarrow> nat \<Rightarrow> nat \<Rightarrow> bool" where
  "inRange c lo hi = (lo \<le> of_char c \<and> (of_char c :: nat) \<le> hi)"

text \<open>The size in bytes of the rune that starts with byte \<open>c\<close>, followed by \<open>cs\<close>.\<close>

definition runeSize :: "char \<Rightarrow> string \<Rightarrow> nat" where
  "runeSize c cs =
     (if (of_char c :: nat) < 0x80 then 1
      else case first (of_char c) of
        None \<Rightarrow> 1
      | Some (sz, lo, hi) \<Rightarrow>
          if 1 + length cs < sz then 1
          else if \<not> inRange (cs ! 0) lo hi then 1
          else if sz = 2 then 2
          else if \<not> inRange (cs ! 1) 0x80 0xBF then 1
          else if sz = 3 then 3
          else if \<not> inRange (cs ! 2) 0x80 0xBF then 1
          else 4)"

fun RuneCountInString :: "string \<Rightarrow> nat" where
  "RuneCountInString [] = 0"
| "RuneCountInString (c # cs) = Suc (RuneCountInString (drop (runeSize c cs - 1) cs))"

text \<open>
  \<^verbatim>\<open>fmt.Sprintf("%-Ns", s)\<close>: the string, then spaces up to a width of \<open>N\<close> runes; a string
  of \<open>N\<close> runes or more is printed as it is. (\<^verbatim>\<open>"%-0s"\<close> has no width and pads nothing.)
\<close>

definition padString :: "nat \<Rightarrow> string \<Rightarrow> string" where
  "padString wid s = s @ replicate (wid - RuneCountInString s) CHR '' ''"

text \<open>\<^verbatim>\<open>strings.Join\<close> and \<^verbatim>\<open>strings.Repeat\<close> (of a one-byte string).\<close>

fun Join :: "string list \<Rightarrow> string \<Rightarrow> string" where
  "Join [] sep = []"
| "Join [x] sep = x"
| "Join (x # y # ys) sep = x @ sep @ Join (y # ys) sep"

definition Repeat :: "char \<Rightarrow> nat \<Rightarrow> string" where
  "Repeat c n = replicate n c"

text \<open>
  The format string \<^verbatim>\<open>fstring\<close> of \<^verbatim>\<open>generateTable\<close> is the verbs \<^verbatim>\<open>%-Ns\<close>, one for each
  column width, joined by \<^verbatim>\<open>" | "\<close> and closed by a newline. It is represented by its
  list of widths; \<open>Sprintf_fstring\<close> is \<^verbatim>\<open>fmt.Sprintf(fstring, values...)\<close>, with as many
  values as verbs. (Widths above ten million, which \<^verbatim>\<open>fmt\<close> refuses to parse, are not
  distinguished.)
\<close>

definition fmtCells :: "nat list \<Rightarrow> string list \<Rightarrow> string list" where
  "fmtCells colWidth values = map (\<lambda>(wid, v). padString wid v) (zip colWidth values)"

definition Sprintf_fstring :: "nat list \<Rightarrow> string list \<Rightarrow> string" where
  "Sprintf_fstring colWidth values = Join (fmtCells colWidth values) '' | '' @ [CHR 0x0A]"

subsection \<open>TableRow\<close>

text \<open>The \<^verbatim>\<open>switch fval.Kind()\<close> of \<^verbatim>\<open>TableRow\<close>: the string stored for a field.\<close>

definition fieldString :: "rvalue \<Rightarrow> string" where
  "fieldString fval =
     (case Kind fval of
        KString \<Rightarrow> String_of fval
      | KInt \<Rightarrow> Sprintf_d (Int_of fval)
      | KInt8 \<Rightarrow> Sprintf_d (Int_of fval)
      | KInt16 \<Rightarrow> Sprintf_d (Int_of fval)
      | KInt32 \<Rightarrow> Sprintf_d (Int_of fval)
      | KInt64 \<Rightarrow> Sprintf_d (Int_of fval)
      | KUint \<Rightarrow> Sprintf_u (Uint_of fval)
      | KUint8 \<Rightarrow> Sprintf_u (Uint_of fval)
      | KUint16 \<Rightarrow> Sprintf_u (Uint_of fval)
      | KUint32 \<Rightarrow> Sprintf_u (Uint_of fval)
      | KUint64 \<Rightarrow> Sprintf_u (Uint_of fval)
      | KBool \<Rightarrow> (if Bool_of fval then ''true'' else ''false'')
      | _ \<Rightarrow> NOT_SUPPORTED)"

text \<open>
  The loop of \<^verbatim>\<open>TableRow\<close> over the fields still to visit, with the maps \<^verbatim>\<open>row\<close> and
  \<^verbatim>\<open>headers\<close> built so far. When \<^verbatim>\<open>GetHeader\<close> fails the function returns at once, and
  what it returns beside the error is \<^verbatim>\<open>row\<close>, twice.
\<close>

fun TableRow_loop ::
  "tableStruct \<Rightarrow> (string \<times> rvalue) list \<Rightarrow> smap \<Rightarrow> smap \<Rightarrow> smap \<times> smap \<times> error option" where
  "TableRow_loop tbl [] row headers = (row, headers, None)"
| "TableRow_loop tbl (f # fs) row headers =
     (case GetHeader tbl (fst f) of
        (header, Some err) \<Rightarrow> (row, row, Some err)
      | (header, None) \<Rightarrow>
          (case FieldByName tbl (fst f) of
             None \<Rightarrow> TableRow_loop tbl fs row (headers(fst f \<mapsto> header))
           | Some fval \<Rightarrow>
               TableRow_loop tbl fs (row(fst f \<mapsto> fieldString fval)) (headers(fst f \<mapsto> header))))"

definition TableRow :: "tableStruct \<Rightarrow> smap \<times> smap \<times> error option" where
  "TableRow tbl = TableRow_loop tbl (Fields tbl) Map.empty Map.empty"

subsection \<open>GetHeaderTag\<close>

text \<open>
  The type descriptor of a struct as \<^verbatim>\<open>GetHeaderTag\<close> reads it: the type's name and, for
  each field, its name and its tag (the tag's keys and values).
  The fields are the ones the type declares itself; a type with embedded structs, whose
  fields \<^verbatim>\<open>FieldByName\<close> would also find, is not described.
\<close>

datatype structType =
  StructType (Name: string) (TypeFields: "(string \<times> smap) list")

definition GetHeaderTag :: "structType \<Rightarrow> string \<Rightarrow> string \<times> error option" where
  "GetHeaderTag ty fieldName =
     (case map_of (TypeFields ty) fieldName of
        None \<Rightarrow>
          ([], Some (Error (''Invalid field '' @ [CHR 0x27] @ fieldName @ [CHR 0x27] @ '' in '' @ Name ty)))
      | Some tag \<Rightarrow> (index tag TABLE_HEADER_TAG, None))"

subsection \<open>generateTable\<close>

text \<open>The first loop: the width of each column's header.\<close>

definition headerWidth :: "smap \<Rightarrow> string list \<Rightarrow> nat list" where
  "headerWidth fieldMap fields = map (\<lambda>field. length (index fieldMap field)) fields"

text \<open>The inner loop for one row \<open>r\<close>: a column grows when the row's value is longer.\<close>

definition widen :: "string list \<Rightarrow> nat list \<Rightarrow> smap \<Rightarrow> nat list" where
  "widen fields colWidth r =
     map (\<lambda>(field, wid). if length (index r field) > wid then length (index r field) else wid)
       (zip fields colWidth)"

text \<open>\<^verbatim>\<open>colWidth\<close> after both loops.\<close>

definition colWidth :: "smap list \<Rightarrow> smap \<Rightarrow> string list \<Rightarrow> nat list" where
  "colWidth data fieldMap fields = foldl (widen fields) (headerWidth fieldMap fields) data"

text \<open>The header line, \<^verbatim>\<open>fmt.Sprintf(fstring, finter...)\<close>, and the line of one row.\<close>

definition headerLine :: "smap list \<Rightarrow> smap \<Rightarrow> string list \<Rightarrow> string" where
  "headerLine data fieldMap fields =
     Sprintf_fstring (colWidth data fieldMap fields) (map (index fieldMap) fields)"

definition rowLine :: "smap list \<Rightarrow> smap \<Rightarrow> string list \<Rightarrow> smap \<Rightarrow> string" where
  "rowLine data fieldMap fields row =
     Sprintf_fstring (colWidth data fieldMap fields) (map (index row) fields)"

text \<open>
  \<^verbatim>\<open>generateTable\<close> prints the header line, the underline and a newline, then one line
  for each row; the result is standard output afterwards. (The slice \<^verbatim>\<open>table\<close> that the
  source fills in its second loop is never read.)
\<close>

definition generateTable :: "string \<Rightarrow> smap list \<Rightarrow> smap \<Rightarrow> string list \<Rightarrow> string" where
  "generateTable stdout data fieldMap fields =
     foldl (\<lambda>out row. out @ rowLine data fieldMap fields row)
       (stdout @ headerLine data fieldMap fields
          @ Repeat CHR ''='' (length (headerLine data fieldMap fields) - 1) @ [CHR 0x0A])
       data"

subsection \<open>generateCSV\<close>

text \<open>
  The writer of \<^verbatim>\<open>encoding/csv\<close> over standard output, as the three operations the code
  calls: \<^verbatim>\<open>csv.NewWriter(os.Stdout)\<close>, \<^verbatim>\<open>w.Write(values)\<close>, which may fail, and \<^verbatim>\<open>w.Flush()\<close>.
  \<open>'o\<close> is the state of standard output and \<open>'w\<close> that of the writer on top of it.
\<close>

datatype ('o, 'w) csv =
  Csv (NewWriter: "'o \<Rightarrow> 'w") (Write: "'w \<Rightarrow> string list \<Rightarrow> 'w \<times> error option")
    (Flush: "'w \<Rightarrow> 'o")

text \<open>The loop over the rows: it stops at the first write that fails.\<close>

fun generateCSV_loop ::
  "('o, 'w) csv \<Rightarrow> 'w \<Rightarrow> smap list \<Rightarrow> string list \<Rightarrow> 'w \<times> error option" where
  "generateCSV_loop lib w [] fields = (w, None)"
| "generateCSV_loop lib w (row # data) fields =
     (case Write lib w (map (index row) fields) of
        (w', Some err) \<Rightarrow> (w', Some err)
      | (w', None) \<Rightarrow> generateCSV_loop lib w' data fields)"

text \<open>\<^verbatim>\<open>generateCSV\<close>; the deferred \<^verbatim>\<open>w.Flush()\<close> runs on both exits.\<close>

definition generateCSV ::
  "('o, 'w) csv \<Rightarrow> 'o \<Rightarrow> smap list \<Rightarrow> string list \<Rightarrow> 'o \<times> error option" where
  "generateCSV lib stdout data fields =
     (case generateCSV_loop lib (NewWriter lib stdout) data fields of
        (w, err) \<Rightarrow> (Flush lib w, err))"

subsection \<open>GenerateTable and GenerateCSV\<close>

text \<open>
  The loop of \<^verbatim>\<open>GenerateTable\<close> over the items still to visit, with \<^verbatim>\<open>table\<close> and
  \<^verbatim>\<open>headers\<close> so far: the first error of \<^verbatim>\<open>TableRow\<close> ends it.
\<close>

fun GenerateTable_loop ::
  "tableStruct list \<Rightarrow> smap list \<Rightarrow> smap \<Rightarrow> error + smap list \<times> smap" where
  "GenerateTable_loop [] table headers = Inr (table, headers)"
| "GenerateTable_loop (item # tables) table headers =
     (case TableRow item of
        (row, h, Some err) \<Rightarrow> Inl err
      | (row, h, None) \<Rightarrow> GenerateTable_loop tables (table @ [row]) h)"

definition GenerateTable :: "string \<Rightarrow> tableStruct list \<Rightarrow> string list \<Rightarrow> string \<times> error option" where
  "GenerateTable stdout tables fields =
     (case GenerateTable_loop tables [] Map.empty of
        Inl err \<Rightarrow> (stdout, Some err)
      | Inr (table, headers) \<Rightarrow> (generateTable stdout table headers fields, None))"

fun GenerateCSV_loop :: "tableStruct list \<Rightarrow> smap list \<Rightarrow> error + smap list" where
  "GenerateCSV_loop [] table = Inr table"
| "GenerateCSV_loop (item # tables) table =
     (case TableRow item of
        (row, h, Some err) \<Rightarrow> Inl err
      | (row, h, None) \<Rightarrow> GenerateCSV_loop tables (table @ [row]))"

text \<open>\<^verbatim>\<open>GenerateCSV\<close> calls \<^verbatim>\<open>generateCSV\<close> as a statement and then returns \<^verbatim>\<open>nil\<close>.\<close>

definition GenerateCSV ::
  "('o, 'w) csv \<Rightarrow> 'o \<Rightarrow> tableStruct list \<Rightarrow> string list \<Rightarrow> 'o \<times> error option" where
  "GenerateCSV lib stdout tables fields =
     (case GenerateCSV_loop tables [] of
        Inl err \<Rightarrow> (stdout, Some err)
      | Inr table \<Rightarrow> (fst (generateCSV lib stdout table fields), None))"

section \<open>Notions of the specification\<close>

text \<open>
  The width the specification gives a column: the maximum of \<^verbatim>\<open>len(header)\<close> and of
  \<^verbatim>\<open>len(cell)\<close> over all rows.
\<close>

definition specWidth :: "smap list \<Rightarrow> smap \<Rightarrow> string \<Rightarrow> nat" where
  "specWidth data fieldMap field =
     Max (set (length (index fieldMap field) # map (\<lambda>r. length (index r field)) data))"

text \<open>The same maximum with every length counted in characters (code points).\<close>

definition charWidth :: "smap list \<Rightarrow> smap \<Rightarrow> string \<Rightarrow> nat" where
  "charWidth data fieldMap field =
     Max (set (RuneCountInString (index fieldMap field)
               # map (\<lambda>r. RuneCountInString (index r field)) data))"

text \<open>The number that a string of decimal digits denotes.\<close>

definition digitValue :: "char \<Rightarrow> nat" where
  "digitValue c = of_char c - 48"

definition decimalValue :: "string \<Rightarrow> nat" where
  "decimalValue s = foldl (\<lambda>a c. 10 * a + digitValue c) 0 s"

text \<open>
  The errors of header resolution: those that \<^verbatim>\<open>GetHeader\<close> gives on the fields of one
  record, in field order, and those of a list of records, in list order.
\<close>

definition headerErrors :: "tableStruct \<Rightarrow> error list" where
  "headerErrors tbl = List.map_filter (\<lambda>f. snd (GetHeader tbl (fst f))) (Fields tbl)"

definition allErrors :: "tableStruct list \<Rightarrow> error list" where
  "allErrors tables = concat (map headerErrors tables)"

text \<open>The content of the rows: for each record, the strings of the selected fields.\<close>

definition rowValues :: "tableStruct list \<Rightarrow> string list \<Rightarrow> string list list" where
  "rowValues tables fields = map (\<lambda>item. map (index (fst (TableRow item))) fields) tables"

text \<open>Writing a list of CSV records one after the other, up to the first failure.\<close>

fun WriteAll :: "('o, 'w) csv \<Rightarrow> 'w \<Rightarrow> string list list \<Rightarrow> 'w \<times> error option" where
  "WriteAll lib w [] = (w, None)"
| "WriteAll lib w (values # rest) =
     (case Write lib w values of
        (w', Some err) \<Rightarrow> (w', Some err)
      | (w', None) \<Rightarrow> WriteAll lib w' rest)"

section \<open>Example inputs\<close>

text \<open>
  A struct type \<^verbatim>\<open>Person\<close> with the fields \<^verbatim>\<open>Name string\<close> and \<^verbatim>\<open>Age int\<close>, both tagged
  with a header, whose \<^verbatim>\<open>GetHeader\<close> is \<^verbatim>\<open>GetHeaderTag\<close> on its own type.
\<close>

definition personType :: structType where
  "personType = StructType ''Person''
     [(''Name'', [''header'' \<mapsto> ''Name'']), (''Age'', [''header'' \<mapsto> ''Age''])]"

definition person :: "string \<Rightarrow> int \<Rightarrow> tableStruct" where
  "person name age =
     TableStruct [(''Name'', VString name), (''Age'', VInt TInt age)] (GetHeaderTag personType)"

text \<open>The same fields with other header tags.\<close>

definition personneType :: structType where
  "personneType = StructType ''Personne''
     [(''Name'', [''header'' \<mapsto> ''Nom'']), (''Age'', [''header'' \<mapsto> ''Ans''])]"

definition personne :: "string \<Rightarrow> int \<Rightarrow> tableStruct" where
  "personne name age =
     TableStruct [(''Name'', VString name), (''Age'', VInt TInt age)] (GetHeaderTag personneType)"

text \<open>
  A struct with the same two fields whose \<^verbatim>\<open>GetHeader\<close> looks the tag up on an older
  type that has no field \<^verbatim>\<open>Age\<close>: header resolution fails on the second field.
\<close>

definition legacyType :: structType where
  "legacyType = StructType ''Legacy'' [(''Name'', [''header'' \<mapsto> ''Name''])]"

definition stale :: "string \<Rightarrow> int \<Rightarrow> tableStruct" where
  "stale name age =
     TableStruct [(''Name'', VString name), (''Age'', VInt TInt age)] (GetHeaderTag legacyType)"

text \<open>A struct with one field of type \<^verbatim>\<open>uintptr\<close>.\<close>

definition fileHandle :: tableStruct where
  "fileHandle =
     TableStruct [(''Fd'', VUint TUintptr 5)]
       (GetHeaderTag (StructType ''FileHandle'' [(''Fd'', [''header'' \<mapsto> ''FD''])]))"

text \<open>The two bytes of the letter e with acute accent in UTF-8.\<close>

definition eacute :: string where
  "eacute = [CHR 0xC3, CHR 0xA9]"

text \<open>
  A CSV writer for the examples, without a buffer: standard output is the bytes written
  and whether the device still takes writes (\<open>False\<close>: the disk is full), and a record
  is written as its fields joined by commas, which is what \<^verbatim>\<open>encoding/csv\<close> writes for
  fields that need no quotes.
\<close>

definition deviceWrite :: "string \<times> bool \<Rightarrow> string list \<Rightarrow> (string \<times> bool) \<times> error option" where
  "deviceWrite w values =
     (if snd w then ((fst w @ Join values '','' @ [CHR 0x0A], True), None)
      else (w, Some (Error ''write /dev/stdout: no space left on device'')))"

definition deviceCsv :: "(string \<times> bool, string \<times> bool) csv" where
  "deviceCsv = Csv id deviceWrite id"

section \<open>Properties\<close>

subsection \<open>Printing\<close>

lemma foldl_print: "foldl (\<lambda>out row. out @ g row) s data = s @ concat (map g data)"
  by (induction data arbitrary: s) simp_all

lemma generateTable_eq:
  "generateTable stdout data fieldMap fields =
     stdout @ headerLine data fieldMap fields
       @ Repeat CHR ''='' (length (headerLine data fieldMap fields) - 1) @ [CHR 0x0A]
       @ concat (map (rowLine data fieldMap fields) data)"
  by (simp add: generateTable_def foldl_print)

lemma Join_replicate_Nil: "Join (replicate n []) sep = concat (replicate (n - 1) sep)"
proof (induction n)
  case 0
  then show ?case by simp
next
  case (Suc n)
  then show ?case by (cases n) simp_all
qed

lemma fmtCells_zero: "fmtCells (replicate n 0) (replicate n []) = replicate n []"
  by (induction n) (simp_all add: fmtCells_def padString_def)

lemma colWidth_Nil: "colWidth [] Map.empty fields = replicate (length fields) 0"
  by (simp add: colWidth_def headerWidth_def index_def map_replicate_const)

lemma index_empty: "map (index Map.empty) fields = replicate (length fields) []"
  by (induction fields) (simp_all add: index_def)

text \<open>
  C10. With no records, \<^verbatim>\<open>GenerateTable\<close> returns no error and prints a header line and
  an underline and nothing after them: the header map is empty, so every header reads
  as the empty string and every column has width zero, and the header line is the
  separators alone. (It holds for the empty field selection too, where the header line
  is a bare newline.)
\<close>

theorem GenerateTable_no_records:
  "GenerateTable stdout [] fields =
     (stdout @ headerLine [] Map.empty fields
        @ Repeat CHR ''='' (length (headerLine [] Map.empty fields) - 1) @ [CHR 0x0A], None)
   \<and> map (index Map.empty) fields = replicate (length fields) []
   \<and> colWidth [] Map.empty fields = replicate (length fields) 0
   \<and> headerLine [] Map.empty fields = concat (replicate (length fields - 1) '' | '') @ [CHR 0x0A]"
  by (simp add: GenerateTable_def generateTable_eq index_empty colWidth_Nil headerLine_def
      Sprintf_fstring_def fmtCells_zero Join_replicate_Nil)

theorem GenerateTable_no_records_witness:
  "GenerateTable ''x'' [] [''Name'', ''Age''] = (''x | '' @ [CHR 0x0A] @ ''==='' @ [CHR 0x0A], None)"
  using GenerateTable_no_records [of "''x''" "[''Name'', ''Age'']"]
  by (simp add: Repeat_def)

subsection \<open>Counting runes\<close>

lemma first_size: "first c = Some (sz, lo, hi) \<Longrightarrow> (sz = 2 \<or> sz = 3 \<or> sz = 4) \<and> 0x80 \<le> lo"
  unfolding first_def by (simp split: if_splits)

lemma runeSize_bounds: "1 \<le> runeSize c cs \<and> runeSize c cs \<le> Suc (length cs)"
proof (cases "first (of_char c)")
  case None
  then show ?thesis by (simp add: runeSize_def)
next
  case (Some t)
  obtain sz lo hi where t: "t = (sz, lo, hi)" by (cases t)
  from Some t first_size have "sz = 2 \<or> sz = 3 \<or> sz = 4" by blast
  then show ?thesis
  proof (elim disjE)
    assume "sz = 2"
    with Some t show ?thesis by (auto simp add: runeSize_def Suc_le_eq)
  next
    assume "sz = 3"
    with Some t show ?thesis by (auto simp add: runeSize_def)
  next
    assume "sz = 4"
    with Some t show ?thesis by (auto simp add: runeSize_def)
  qed
qed

lemma RuneCountInString_le: "RuneCountInString s \<le> length s"
proof (induction s rule: RuneCountInString.induct)
  case 1
  then show ?case by simp
next
  case (2 c cs)
  have "length (drop (runeSize c cs - 1) cs) \<le> length cs" by simp
  with 2 show ?case by simp
qed

lemma runeSize_ascii: "(of_char c :: nat) < 0x80 \<Longrightarrow> runeSize c cs = 1"
  by (simp add: runeSize_def)

lemma RuneCountInString_ascii:
  "\<forall>c\<in>set s. (of_char c :: nat) < 0x80 \<Longrightarrow> RuneCountInString s = length s"
  by (induction s) (simp_all add: runeSize_ascii)

lemma inRange_ascii: "(of_char c :: nat) < 0x80 \<Longrightarrow> 0x80 \<le> lo \<Longrightarrow> \<not> inRange c lo hi"
  by (simp add: inRange_def)

lemma nth_append_ascii:
  assumes "\<forall>b\<in>set p. (of_char b :: nat) < 0x80" "0x80 \<le> lo" "n < length (cs @ p)" 
  shows "inRange ((cs @ p) ! n) lo hi = (n < length cs \<and> inRange (cs ! n) lo hi)"
proof (cases "n < length cs")
  case True
  then show ?thesis by (simp add: nth_append)
next
  case False
  with assms have "(cs @ p) ! n \<in> set p" by (simp add: nth_append)
  with assms False show ?thesis by (simp add: inRange_ascii)
qed

lemma list_shape3:
  "cs = [] \<or> (\<exists>a. cs = [a]) \<or> (\<exists>a b. cs = [a, b]) \<or> (\<exists>a b d ds. cs = a # b # d # ds)"
  by (metis list.exhaust)

lemma runeSize_append_ascii:
  assumes "\<forall>b\<in>set p. (of_char b :: nat) < 0x80"
  shows "runeSize c (cs @ p) = runeSize c cs"
proof (cases "first (of_char c)")
  case None
  then show ?thesis by (simp add: runeSize_def)
next
  case (Some t)
  obtain sz lo hi where t: "t = (sz, lo, hi)" by (cases t)
  from Some t first_size have sz: "sz = 2 \<or> sz = 3 \<or> sz = 4" and lo: "0x80 \<le> lo" by blast+
  have p0: "p = [] \<or> (\<not> inRange (p ! 0) lo hi \<and> \<not> inRange (p ! 0) 0x80 0xBF)"
    using assms lo by (cases p) (simp_all add: inRange_ascii)
  from list_shape3 [of cs] show ?thesis
  proof (elim disjE exE)
    assume "cs = []"
    with sz Some t lo p0 show ?thesis by (auto simp add: runeSize_def)
  next
    fix a assume "cs = [a]"
    with sz Some t lo p0 show ?thesis by (auto simp add: runeSize_def)
  next
    fix a b assume "cs = [a, b]"
    with sz Some t lo p0 show ?thesis by (auto simp add: runeSize_def)
  next
    fix a b d ds assume "cs = a # b # d # ds"
    with sz Some t lo show ?thesis by (auto simp add: runeSize_def)
  qed
qed

lemma RuneCountInString_append_ascii:
  assumes "\<forall>b\<in>set p. (of_char b :: nat) < 0x80"
  shows "RuneCountInString (s @ p) = RuneCountInString s + length p"
proof (induction s rule: RuneCountInString.induct)
  case 1
  from assms show ?case by (simp add: RuneCountInString_ascii)
next
  case (2 c cs)
  have le: "runeSize c cs - 1 \<le> length cs" using runeSize_bounds [of c cs] by arith
  with 2 show ?case by (simp add: runeSize_append_ascii [OF assms])
qed

lemma RuneCountInString_padString:
  "RuneCountInString (padString wid s) = max wid (RuneCountInString s)"
  by (simp add: padString_def RuneCountInString_append_ascii)

subsection \<open>Column widths\<close>

lemma length_widen: "length (widen fields ws r) = min (length fields) (length ws)"
  by (simp add: widen_def)

lemma length_foldl_widen:
  "length ws = length fields \<Longrightarrow> length (foldl (widen fields) ws data) = length fields"
  by (induction data arbitrary: ws) (simp_all add: length_widen)

lemma length_colWidth: "length (colWidth data fieldMap fields) = length fields"
  by (simp add: colWidth_def headerWidth_def length_foldl_widen)

lemma widen_nth:
  "i < length fields \<Longrightarrow> length ws = length fields \<Longrightarrow>
     widen fields ws r ! i = max (length (index r (fields ! i))) (ws ! i)"
  by (simp add: widen_def max_def)

lemma foldl_widen_nth:
  "i < length fields \<Longrightarrow> length ws = length fields \<Longrightarrow>
     foldl (widen fields) ws data ! i
       = fold max (map (\<lambda>r. length (index r (fields ! i))) data) (ws ! i)"
  by (induction data arbitrary: ws) (simp_all add: length_widen widen_nth)

lemma colWidth_nth:
  "i < length fields \<Longrightarrow> colWidth data fieldMap fields ! i = specWidth data fieldMap (fields ! i)"
  by (simp add: colWidth_def specWidth_def headerWidth_def foldl_widen_nth Max.set_eq_fold
      del: set_simps)

lemma specWidth_ge:
  "m \<in> set (fieldMap # data) \<Longrightarrow> length (index m field) \<le> specWidth data fieldMap field"
  unfolding specWidth_def by (rule Max_ge) auto

lemma fmtCells_nth:
  "i < length ws \<Longrightarrow> i < length vs \<Longrightarrow> fmtCells ws vs ! i = padString (ws ! i) (vs ! i)"
  by (simp add: fmtCells_def)

lemma cell_nth:
  "i < length fields \<Longrightarrow>
     fmtCells (colWidth data fieldMap fields) (map (index m) fields) ! i
       = padString (specWidth data fieldMap (fields ! i)) (index m (fields ! i))"
  by (simp add: fmtCells_nth length_colWidth colWidth_nth)

lemma padString_runes:
  "length s \<le> wid \<Longrightarrow> RuneCountInString (padString wid s) = wid"
  using RuneCountInString_le [of s] by (simp add: RuneCountInString_padString)

lemma padString_ascii_length:
  "\<forall>c\<in>set s. (of_char c :: nat) < 0x80 \<Longrightarrow> length s \<le> wid \<Longrightarrow> length (padString wid s) = wid"
  by (simp add: padString_def RuneCountInString_ascii)

lemma set_Join: "set (Join xs sep) \<subseteq> (\<Union>x\<in>set xs. set x) \<union> set sep"
  by (induction xs sep rule: Join.induct) auto

lemma set_padString: "set (padString wid s) \<subseteq> set s \<union> {CHR '' ''}"
  by (auto simp add: padString_def)

lemma set_fmtCells:
  "cell \<in> set (fmtCells ws vs) \<Longrightarrow> \<exists>v\<in>set vs. set cell \<subseteq> set v \<union> {CHR '' ''}"
  by (auto simp add: fmtCells_def dest: set_zip_rightD simp add: padString_def)

lemma headerLine_ascii:
  assumes "\<forall>f\<in>set fields. \<forall>c\<in>set (index fieldMap f). (of_char c :: nat) < 0x80"
  shows "\<forall>c\<in>set (headerLine data fieldMap fields). (of_char c :: nat) < 0x80"
proof
  fix c
  assume "c \<in> set (headerLine data fieldMap fields)"
  then have "c \<in> set (Join (fmtCells (colWidth data fieldMap fields) (map (index fieldMap) fields)) '' | '')
      \<or> c = CHR 0x0A"
    by (auto simp add: headerLine_def Sprintf_fstring_def)
  then show "(of_char c :: nat) < 0x80"
  proof
    assume "c \<in> set (Join (fmtCells (colWidth data fieldMap fields) (map (index fieldMap) fields)) '' | '')"
    with set_Join have "(\<exists>cell\<in>set (fmtCells (colWidth data fieldMap fields) (map (index fieldMap) fields)).
        c \<in> set cell) \<or> c \<in> set '' | ''"
      by fastforce
    then show ?thesis
    proof
      assume "\<exists>cell\<in>set (fmtCells (colWidth data fieldMap fields) (map (index fieldMap) fields)). c \<in> set cell"
      then obtain cell where cell: "cell \<in> set (fmtCells (colWidth data fieldMap fields) (map (index fieldMap) fields))"
        and c: "c \<in> set cell" by blast
      from set_fmtCells [OF cell] obtain v where "v \<in> set (map (index fieldMap) fields)"
        and "set cell \<subseteq> set v \<union> {CHR '' ''}" by blast
      with c assms show ?thesis by auto
    next
      assume "c \<in> set '' | ''"
      then show ?thesis by auto
    qed
  next
    assume "c = CHR 0x0A"
    then show ?thesis by simp
  qed
qed

lemma RuneCountInString_Repeat: "RuneCountInString (Repeat CHR ''='' n) = n"
  by (simp add: Repeat_def RuneCountInString_ascii)

lemma specWidth_ascii:
  assumes "\<forall>m\<in>set (fieldMap # data). \<forall>c\<in>set (index m field). (of_char c :: nat) < 0x80"
  shows "specWidth data fieldMap field = charWidth data fieldMap field"
proof -
  from assms have "map (\<lambda>r. length (index r field)) data
      = map (\<lambda>r. RuneCountInString (index r field)) data"
    by (simp add: RuneCountInString_ascii)
  moreover from assms have "length (index fieldMap field) = RuneCountInString (index fieldMap field)"
    by (simp add: RuneCountInString_ascii)
  ultimately show ?thesis by (simp only: specWidth_def charWidth_def)
qed

lemma RuneCountInString_eacute: "RuneCountInString eacute = 1"
  by (simp add: eacute_def runeSize_def first_def inRange_def)

text \<open>
  A table whose single header is \<open>e\<close> with acute accent (two bytes, one code point),
  with no rows: the column is two wide, the header cell is that letter and one space,
  and the underline has three signs.
\<close>

lemma cell_eacute:
  "fmtCells (colWidth [] [''H'' \<mapsto> eacute] [''H'']) (map (index [''H'' \<mapsto> eacute]) [''H'']) ! 0
     = eacute @ '' ''"
  by (simp add: colWidth_def headerWidth_def index_def fmtCells_def padString_def
      RuneCountInString_eacute) (simp add: eacute_def)

lemma headerLine_eacute: "headerLine [] [''H'' \<mapsto> eacute] [''H''] = eacute @ '' '' @ [CHR 0x0A]"
  by (simp add: headerLine_def colWidth_def headerWidth_def index_def Sprintf_fstring_def
      fmtCells_def padString_def RuneCountInString_eacute) (simp add: eacute_def)

lemma generateTable_eacute:
  "generateTable [] [] [''H'' \<mapsto> eacute] [''H''] = eacute @ '' '' @ [CHR 0x0A] @ ''==='' @ [CHR 0x0A]"
  by (simp add: generateTable_def headerLine_eacute Repeat_def) (simp add: eacute_def)

lemma RuneCountInString_eacute_space: "RuneCountInString (eacute @ '' '') = 2"
  using RuneCountInString_append_ascii [of "'' ''" eacute] by (simp add: RuneCountInString_eacute)

lemma RuneCountInString_eacute_line: "RuneCountInString (eacute @ '' '' @ [CHR 0x0A]) = 3"
  using RuneCountInString_append_ascii [of "'' '' @ [CHR 0x0A]" eacute]
  by (simp add: RuneCountInString_eacute)

text \<open>
  C4 (as amended). A text table is printed as the header line, the underline and one
  line for each row, and the header line and every row line are their cells joined by
  \<^verbatim>\<open>" | "\<close> and closed by a newline. The width of a selected column is the maximum of
  the lengths in bytes (Go's \<^verbatim>\<open>len\<close>) of its header and of its values over all rows;
  when all these strings are ASCII it is the maximum of their lengths in characters.
  Every header and every cell of the column is left-justified and padded: it is its
  string followed by spaces only, and it counts exactly the column's width in characters
  (code points, which is how \<^verbatim>\<open>fmt\<close> measures a width). When the string is ASCII the
  cell is that many bytes long as well.
\<close>

theorem generateTable_column_width:
  "generateTable stdout data fieldMap fields
     = stdout @ headerLine data fieldMap fields
         @ Repeat CHR ''='' (length (headerLine data fieldMap fields) - 1) @ [CHR 0x0A]
         @ concat (map (rowLine data fieldMap fields) data)
   \<and> headerLine data fieldMap fields
     = Join (fmtCells (colWidth data fieldMap fields) (map (index fieldMap) fields)) '' | '' @ [CHR 0x0A]
   \<and> (\<forall>row. rowLine data fieldMap fields row
        = Join (fmtCells (colWidth data fieldMap fields) (map (index row) fields)) '' | '' @ [CHR 0x0A])
   \<and> (\<forall>i<length fields.
        colWidth data fieldMap fields ! i = specWidth data fieldMap (fields ! i)
      \<and> ((\<forall>m\<in>set (fieldMap # data). \<forall>c\<in>set (index m (fields ! i)). (of_char c :: nat) < 0x80) \<longrightarrow>
           specWidth data fieldMap (fields ! i) = charWidth data fieldMap (fields ! i))
      \<and> (\<forall>m\<in>set (fieldMap # data).
          fmtCells (colWidth data fieldMap fields) (map (index m) fields) ! i
            = index m (fields ! i)
              @ replicate (specWidth data fieldMap (fields ! i) - RuneCountInString (index m (fields ! i))) CHR '' ''
        \<and> RuneCountInString (fmtCells (colWidth data fieldMap fields) (map (index m) fields) ! i)
            = specWidth data fieldMap (fields ! i)
        \<and> ((\<forall>c\<in>set (index m (fields ! i)). (of_char c :: nat) < 0x80) \<longrightarrow>
             length (fmtCells (colWidth data fieldMap fields) (map (index m) fields) ! i)
               = specWidth data fieldMap (fields ! i))))"
proof (intro conjI allI impI ballI)
  show "generateTable stdout data fieldMap fields
     = stdout @ headerLine data fieldMap fields
         @ Repeat CHR ''='' (length (headerLine data fieldMap fields) - 1) @ [CHR 0x0A]
         @ concat (map (rowLine data fieldMap fields) data)"
    by (rule generateTable_eq)
next
  show "headerLine data fieldMap fields
     = Join (fmtCells (colWidth data fieldMap fields) (map (index fieldMap) fields)) '' | '' @ [CHR 0x0A]"
    by (simp add: headerLine_def Sprintf_fstring_def)
next
  fix row
  show "rowLine data fieldMap fields row
        = Join (fmtCells (colWidth data fieldMap fields) (map (index row) fields)) '' | '' @ [CHR 0x0A]"
    by (simp add: rowLine_def Sprintf_fstring_def)
next
  fix i
  assume i: "i < length fields"
  then show "colWidth data fieldMap fields ! i = specWidth data fieldMap (fields ! i)"
    by (rule colWidth_nth)
next
  fix i
  assume "\<forall>m\<in>set (fieldMap # data). \<forall>c\<in>set (index m (fields ! i)). (of_char c :: nat) < 0x80"
  then show "specWidth data fieldMap (fields ! i) = charWidth data fieldMap (fields ! i)"
    by (rule specWidth_ascii)
next
  fix i m
  assume i: "i < length fields" and m: "m \<in> set (fieldMap # data)"
  let ?W = "specWidth data fieldMap (fields ! i)"
  let ?s = "index m (fields ! i)"
  let ?cell = "fmtCells (colWidth data fieldMap fields) (map (index m) fields) ! i"
  have cell: "?cell = padString ?W ?s" using i by (rule cell_nth)
  have le: "length ?s \<le> ?W" using m by (rule specWidth_ge)
  show "?cell = ?s @ replicate (?W - RuneCountInString ?s) CHR '' ''"
    by (simp add: cell padString_def)
  show "RuneCountInString ?cell = ?W" by (simp add: cell padString_runes le)
  assume "\<forall>c\<in>set ?s. (of_char c :: nat) < 0x80"
  then show "length ?cell = ?W" by (simp add: cell padString_ascii_length le)
qed

theorem generateTable_column_width_witness:
  "generateTable []
       [[''Name'' \<mapsto> ''Alice'', ''Age'' \<mapsto> ''30''], [''Name'' \<mapsto> ''Bob'', ''Age'' \<mapsto> ''5'']]
       [''Name'' \<mapsto> ''Name'', ''Age'' \<mapsto> ''Age''] [''Name'', ''Age'']
     = ''Name  | Age'' @ [CHR 0x0A] @ ''==========='' @ [CHR 0x0A]
       @ ''Alice | 30 '' @ [CHR 0x0A] @ ''Bob   | 5  '' @ [CHR 0x0A]
   \<and> fmtCells (colWidth [[''Name'' \<mapsto> ''Alice'', ''Age'' \<mapsto> ''30''], [''Name'' \<mapsto> ''Bob'', ''Age'' \<mapsto> ''5'']]
                 [''Name'' \<mapsto> ''Name'', ''Age'' \<mapsto> ''Age''] [''Name'', ''Age''])
        (map (index [''Name'' \<mapsto> ''Bob'', ''Age'' \<mapsto> ''5'']) [''Name'', ''Age'']) ! 0 = ''Bob  ''
   \<and> RuneCountInString ''Bob  '' = 5
   \<and> length ''Bob  '' = 5
   \<and> specWidth [[''Name'' \<mapsto> ''Alice'', ''Age'' \<mapsto> ''30''], [''Name'' \<mapsto> ''Bob'', ''Age'' \<mapsto> ''5'']]
        [''Name'' \<mapsto> ''Name'', ''Age'' \<mapsto> ''Age''] ''Name'' = 5
   \<and> charWidth [[''Name'' \<mapsto> ''Alice'', ''Age'' \<mapsto> ''30''], [''Name'' \<mapsto> ''Bob'', ''Age'' \<mapsto> ''5'']]
        [''Name'' \<mapsto> ''Name'', ''Age'' \<mapsto> ''Age''] ''Name'' = 5"
proof -
  let ?alice = "[''Name'' \<mapsto> ''Alice'', ''Age'' \<mapsto> ''30'']"
  let ?bob = "[''Name'' \<mapsto> ''Bob'', ''Age'' \<mapsto> ''5'']"
  let ?data = "[?alice, ?bob]"
  let ?hm = "[''Name'' \<mapsto> ''Name'', ''Age'' \<mapsto> ''Age'']"
  let ?fields = "[''Name'', ''Age'']"
  let ?cell = "fmtCells (colWidth ?data ?hm ?fields) (map (index ?bob) ?fields) ! 0"
  note T = generateTable_column_width [of "[]" ?data ?hm ?fields]
  note out = T [THEN conjunct1]
  note hl = T [THEN conjunct2, THEN conjunct1]
  note rl = T [THEN conjunct2, THEN conjunct2, THEN conjunct1, rule_format]
  have i: "(0::nat) < length ?fields" by simp
  note col = T [THEN conjunct2, THEN conjunct2, THEN conjunct2, rule_format, OF i]
  have m: "?bob \<in> set (?hm # ?data)" by simp
  have asc: "\<forall>m\<in>set (?hm # ?data). \<forall>c\<in>set (index m (?fields ! 0)). (of_char c :: nat) < 0x80"
    by (simp add: index_def)
  have a: "\<forall>c\<in>set (index ?bob (?fields ! 0)). (of_char c :: nat) < 0x80"
    by (simp add: index_def)
  have w: "specWidth ?data ?hm (?fields ! 0) = 5"
    by (simp add: specWidth_def index_def)
  have g: "generateTable [] ?data ?hm ?fields
     = ''Name  | Age'' @ [CHR 0x0A] @ ''==========='' @ [CHR 0x0A]
       @ ''Alice | 30 '' @ [CHR 0x0A] @ ''Bob   | 5  '' @ [CHR 0x0A]"
    by (simp only: out hl rl list.map)
      (simp add: colWidth_def headerWidth_def widen_def index_def fmtCells_def padString_def
        Repeat_def runeSize_def)
  from col [THEN conjunct2, THEN conjunct1] asc
  have sc: "specWidth ?data ?hm (?fields ! 0) = charWidth ?data ?hm (?fields ! 0)"
    by (rule mp)
  note cellfacts = col [THEN conjunct2, THEN conjunct2, rule_format, OF m]
  have c1: "?cell = index ?bob (?fields ! 0)
      @ replicate (specWidth ?data ?hm (?fields ! 0) - RuneCountInString (index ?bob (?fields ! 0))) CHR '' ''"
    using cellfacts by (rule conjunct1)
  have c2: "RuneCountInString ?cell = specWidth ?data ?hm (?fields ! 0)"
    using cellfacts [THEN conjunct2] by (rule conjunct1)
  have c3: "length ?cell = specWidth ?data ?hm (?fields ! 0)"
    using cellfacts [THEN conjunct2, THEN conjunct2] a by (rule mp)
  have cell: "?cell = ''Bob  ''"
    by (simp only: c1 w) (simp add: index_def runeSize_def numeral_2_eq_2)
  from c2 c3 sc w cell g show ?thesis by simp
qed

text \<open>
  C4 as it is stated does not hold when a string is not ASCII, whichever way lengths are
  counted. In the table above the header cell is printed with two characters for a
  header, the column's longest string, of one character; and it is three bytes long
  where the longest string has two.
\<close>

theorem column_width_counterexample:
  "generateTable [] [] [''H'' \<mapsto> eacute] [''H'']
     = eacute @ '' '' @ [CHR 0x0A] @ ''==='' @ [CHR 0x0A]
   \<and> fmtCells (colWidth [] [''H'' \<mapsto> eacute] [''H'']) (map (index [''H'' \<mapsto> eacute]) [''H'']) ! 0
     = eacute @ '' ''
   \<and> RuneCountInString (eacute @ '' '') = 2
   \<and> charWidth [] [''H'' \<mapsto> eacute] ''H'' = 1
   \<and> length (eacute @ '' '') = 3
   \<and> specWidth [] [''H'' \<mapsto> eacute] ''H'' = 2"
proof -
  have c: "charWidth [] [''H'' \<mapsto> eacute] ''H'' = 1"
    by (simp add: charWidth_def index_def RuneCountInString_eacute)
  have l: "length (eacute @ '' '') = 3"
    by (simp add: eacute_def)
  have w: "specWidth [] [''H'' \<mapsto> eacute] ''H'' = 2"
    by (simp add: specWidth_def index_def eacute_def)
  from generateTable_eacute cell_eacute RuneCountInString_eacute_space c l w show ?thesis
    by (simp only: simp_thms)
qed

subsection \<open>The underline\<close>

text \<open>
  C5 (as amended). In every text table the underline that follows the header line is
  made of \<open>=\<close> only, and its length is the length in bytes (Go's \<^verbatim>\<open>len\<close>) of the header
  line minus one, the one being the header line's closing newline. That is the
  underline's number of characters; it is the header line's number of characters minus
  one when the selected headers are ASCII.
\<close>

theorem underline_length:
  "generateTable stdout data fieldMap fields =
     stdout @ headerLine data fieldMap fields
       @ Repeat CHR ''='' (length (headerLine data fieldMap fields) - 1) @ [CHR 0x0A]
       @ concat (map (rowLine data fieldMap fields) data)
   \<and> Repeat CHR ''='' (length (headerLine data fieldMap fields) - 1)
       = replicate (length (headerLine data fieldMap fields) - 1) CHR ''=''
   \<and> last (headerLine data fieldMap fields) = CHR 0x0A
   \<and> length (Repeat CHR ''='' (length (headerLine data fieldMap fields) - 1)) + 1
       = length (headerLine data fieldMap fields)
   \<and> RuneCountInString (Repeat CHR ''='' (length (headerLine data fieldMap fields) - 1)) + 1
       = length (headerLine data fieldMap fields)
   \<and> ((\<forall>f\<in>set fields. \<forall>c\<in>set (index fieldMap f). (of_char c :: nat) < 0x80) \<longrightarrow>
        RuneCountInString (Repeat CHR ''='' (length (headerLine data fieldMap fields) - 1)) + 1
          = RuneCountInString (headerLine data fieldMap fields))"
proof -
  have len: "length (Repeat CHR ''='' (length (headerLine data fieldMap fields) - 1)) + 1
       = length (headerLine data fieldMap fields)"
    by (simp add: Repeat_def headerLine_def Sprintf_fstring_def)
  have "RuneCountInString (headerLine data fieldMap fields) = length (headerLine data fieldMap fields)"
    if "\<forall>f\<in>set fields. \<forall>c\<in>set (index fieldMap f). (of_char c :: nat) < 0x80"
    using headerLine_ascii [OF that] by (rule RuneCountInString_ascii)
  with len show ?thesis
    by (simp add: generateTable_eq RuneCountInString_Repeat)
      (simp add: Repeat_def headerLine_def Sprintf_fstring_def)
qed

theorem underline_length_witness:
  "generateTable [] [[''Name'' \<mapsto> ''Alice'', ''Age'' \<mapsto> ''30'']] [''Name'' \<mapsto> ''Name'', ''Age'' \<mapsto> ''Age'']
       [''Name'', ''Age'']
     = ''Name  | Age'' @ [CHR 0x0A] @ ''==========='' @ [CHR 0x0A] @ ''Alice | 30 '' @ [CHR 0x0A]
   \<and> RuneCountInString ''==========='' + 1 = RuneCountInString (''Name  | Age'' @ [CHR 0x0A])"
proof -
  let ?data = "[[''Name'' \<mapsto> ''Alice'', ''Age'' \<mapsto> ''30'']]"
  let ?hm = "[''Name'' \<mapsto> ''Name'', ''Age'' \<mapsto> ''Age'']"
  let ?fields = "[''Name'', ''Age'']"
  have h: "headerLine ?data ?hm ?fields = ''Name  | Age'' @ [CHR 0x0A]"
    by (simp add: headerLine_def colWidth_def headerWidth_def widen_def index_def
        Sprintf_fstring_def fmtCells_def padString_def runeSize_def)
  have r: "rowLine ?data ?hm ?fields [''Name'' \<mapsto> ''Alice'', ''Age'' \<mapsto> ''30''] = ''Alice | 30 '' @ [CHR 0x0A]"
    by (simp add: rowLine_def colWidth_def headerWidth_def widen_def index_def
        Sprintf_fstring_def fmtCells_def padString_def runeSize_def)
  have asc: "\<forall>f\<in>set ?fields. \<forall>c\<in>set (index ?hm f). (of_char c :: nat) < 0x80"
    by (simp add: index_def)
  note T = underline_length [of "[]" ?data ?hm ?fields]
  have u: "Repeat CHR ''='' (length (headerLine ?data ?hm ?fields) - 1) = ''==========='' "
    by (simp only: T [THEN conjunct2, THEN conjunct1]) (simp add: h)
  have g: "generateTable [] ?data ?hm ?fields
     = ''Name  | Age'' @ [CHR 0x0A] @ ''==========='' @ [CHR 0x0A] @ ''Alice | 30 '' @ [CHR 0x0A]"
    by (simp only: T [THEN conjunct1] u) (simp add: h r)
  from T [THEN conjunct2, THEN conjunct2, THEN conjunct2, THEN conjunct2, THEN conjunct2] asc
  have "RuneCountInString (Repeat CHR ''='' (length (headerLine ?data ?hm ?fields) - 1)) + 1
          = RuneCountInString (headerLine ?data ?hm ?fields)"
    by (rule mp)
  then have "RuneCountInString ''==========='' + 1 = RuneCountInString (headerLine ?data ?hm ?fields)"
    by (simp only: u)
  then have "RuneCountInString ''==========='' + 1 = RuneCountInString (''Name  | Age'' @ [CHR 0x0A])"
    by (simp only: h)
  with g show ?thesis by (simp only: simp_thms)
qed

text \<open>
  C5 as it is stated, in characters, does not hold when a header is not ASCII. In the
  table whose single header is \<open>e\<close> with acute accent the header line has three
  characters, the newline among them, and the underline has three as well, not two.
\<close>

theorem underline_counterexample:
  "generateTable [] [] [''H'' \<mapsto> eacute] [''H'']
     = eacute @ '' '' @ [CHR 0x0A] @ ''==='' @ [CHR 0x0A]
   \<and> headerLine [] [''H'' \<mapsto> eacute] [''H''] = eacute @ '' '' @ [CHR 0x0A]
   \<and> RuneCountInString (headerLine [] [''H'' \<mapsto> eacute] [''H'']) = 3
   \<and> Repeat CHR ''='' (length (headerLine [] [''H'' \<mapsto> eacute] [''H'']) - 1) = ''===''
   \<and> RuneCountInString (Repeat CHR ''='' (length (headerLine [] [''H'' \<mapsto> eacute] [''H'']) - 1)) = 3
   \<and> RuneCountInString (Repeat CHR ''='' (length (headerLine [] [''H'' \<mapsto> eacute] [''H'']) - 1))
       \<noteq> RuneCountInString (headerLine [] [''H'' \<mapsto> eacute] [''H'']) - 1"
proof -
  let ?h = "headerLine [] [''H'' \<mapsto> eacute] [''H'']"
  have r: "RuneCountInString ?h = 3"
    unfolding headerLine_eacute by (rule RuneCountInString_eacute_line)
  have u: "Repeat CHR ''='' (length ?h - 1) = ''===''"
    unfolding headerLine_eacute by (simp add: Repeat_def eacute_def)
  have ru: "RuneCountInString (Repeat CHR ''='' (length ?h - 1)) = 3"
    unfolding headerLine_eacute by (simp add: RuneCountInString_Repeat eacute_def)
  have ne: "RuneCountInString (Repeat CHR ''='' (length ?h - 1)) \<noteq> RuneCountInString ?h - 1"
    unfolding ru r by simp
  from generateTable_eacute headerLine_eacute r u ru ne show ?thesis
    by (simp only: simp_thms)
qed

subsection \<open>TableRow\<close>

lemma TableRow_loop_ok:
  assumes "\<forall>f\<in>set fs. snd (GetHeader tbl (fst f)) = None"
  shows "TableRow_loop tbl fs row headers =
    ((\<lambda>n. if n \<in> fst ` set fs
           then (case FieldByName tbl n of None \<Rightarrow> row n | Some fval \<Rightarrow> Some (fieldString fval))
           else row n),
     (\<lambda>n. if n \<in> fst ` set fs then Some (fst (GetHeader tbl n)) else headers n),
     None)"
  using assms
proof (induction fs arbitrary: row headers)
  case Nil
  then show ?case by simp
next
  case (Cons f fs)
  obtain header where h: "GetHeader tbl (fst f) = (header, None)"
    using Cons.prems by (cases "GetHeader tbl (fst f)") auto
  from Cons.prems have rest: "\<forall>f\<in>set fs. snd (GetHeader tbl (fst f)) = None" by simp
  show ?case
  proof (cases "FieldByName tbl (fst f)")
    case None
    then show ?thesis by (auto simp add: h Cons.IH [OF rest] fun_eq_iff split: option.splits)
  next
    case (Some fval)
    then show ?thesis by (auto simp add: h Cons.IH [OF rest] fun_eq_iff split: option.splits)
  qed
qed

lemma TableRow_loop_append:
  assumes "\<forall>f\<in>set pre. snd (GetHeader tbl (fst f)) = None"
  shows "TableRow_loop tbl (pre @ rest) row headers =
     TableRow_loop tbl rest (fst (TableRow_loop tbl pre row headers))
       (fst (snd (TableRow_loop tbl pre row headers)))"
  using assms
proof (induction pre arbitrary: row headers)
  case Nil
  then show ?case by simp
next
  case (Cons f pre)
  obtain header where h: "GetHeader tbl (fst f) = (header, None)"
    using Cons.prems by (cases "GetHeader tbl (fst f)") auto
  from Cons.prems have rest: "\<forall>f\<in>set pre. snd (GetHeader tbl (fst f)) = None" by simp
  show ?case by (simp add: h Cons.IH [OF rest] split: option.splits del: fun_upd_apply)
qed

lemma TableRow_loop_error:
  "snd (snd (TableRow_loop tbl fs row headers)) =
     (case List.map_filter (\<lambda>f. snd (GetHeader tbl (fst f))) fs of [] \<Rightarrow> None | err # _ \<Rightarrow> Some err)"
proof (induction fs arbitrary: row headers)
  case Nil
  then show ?case by simp
next
  case (Cons f fs)
  then show ?case
    by (cases "GetHeader tbl (fst f)") (simp split: option.splits)
qed

lemma TableRow_error: 
  "snd (snd (TableRow tbl)) = (case headerErrors tbl of [] \<Rightarrow> None | err # _ \<Rightarrow> Some err)"
  by (simp add: TableRow_def headerErrors_def TableRow_loop_error)

lemma headerErrors_Nil:
  "headerErrors tbl = [] \<longleftrightarrow> (\<forall>f\<in>set (Fields tbl). snd (GetHeader tbl (fst f)) = None)"
  by (auto simp add: headerErrors_def List.map_filter_def filter_empty_conv)

lemma TableRow_ok:
  assumes "headerErrors tbl = []"
  shows "TableRow tbl =
    (map_option fieldString \<circ> map_of (Fields tbl),
     (\<lambda>n. if n \<in> fst ` set (Fields tbl) then Some (fst (GetHeader tbl n)) else None),
     None)"
proof -
  from assms have ok: "\<forall>f\<in>set (Fields tbl). snd (GetHeader tbl (fst f)) = None"
    by (simp add: headerErrors_Nil)
  have "(\<lambda>n. if n \<in> fst ` set (Fields tbl)
           then (case FieldByName tbl n of None \<Rightarrow> None | Some fval \<Rightarrow> Some (fieldString fval))
           else None) = map_option fieldString \<circ> map_of (Fields tbl)"
    by (auto simp add: fun_eq_iff FieldByName_def map_of_eq_None_iff split: option.splits)
  with TableRow_loop_ok [OF ok, of Map.empty Map.empty] show ?thesis
    by (simp add: TableRow_def)
qed

text \<open>
  C2 (as amended). When \<^verbatim>\<open>GetHeader\<close> fails for a field and succeeds for the fields
  before it, \<^verbatim>\<open>TableRow\<close> stops there and returns that error. Beside the error it
  returns, in both map positions, the row built so far: the strings of the fields before
  the failing one (the empty map only when the first field fails), and no header map.
\<close>

theorem TableRow_header_failure:
  assumes "Fields tbl = pre @ f # post"
      and "\<forall>g\<in>set pre. snd (GetHeader tbl (fst g)) = None"
      and "snd (GetHeader tbl (fst f)) = Some err"
  shows "TableRow tbl =
     (map_option fieldString \<circ> map_of pre, map_option fieldString \<circ> map_of pre, Some err)"
proof -
  obtain header where h: "GetHeader tbl (fst f) = (header, Some err)"
    using assms(3) by (cases "GetHeader tbl (fst f)") auto
  have "(\<lambda>n. if n \<in> fst ` set pre
           then (case FieldByName tbl n of None \<Rightarrow> None | Some fval \<Rightarrow> Some (fieldString fval))
           else None) = map_option fieldString \<circ> map_of pre"
    using assms(1)
    by (auto simp add: fun_eq_iff FieldByName_def map_of_eq_None_iff map_add_def
        split: option.splits)
  with h assms(1) TableRow_loop_ok [OF assms(2), of Map.empty Map.empty] show ?thesis
    by (simp add: TableRow_def TableRow_loop_append [OF assms(2)])
qed

theorem TableRow_header_failure_witness:
  "TableRow (stale ''Eve'' 41) =
     ([''Name'' \<mapsto> ''Eve''], [''Name'' \<mapsto> ''Eve''],
      Some (Error (''Invalid field '' @ [CHR 0x27] @ ''Age'' @ [CHR 0x27] @ '' in Legacy'')))"
proof -
  let ?e = "Error (''Invalid field '' @ [CHR 0x27] @ ''Age'' @ [CHR 0x27] @ '' in Legacy'')"
  have f: "Fields (stale ''Eve'' 41) = [(''Name'', VString ''Eve'')] @ (''Age'', VInt TInt 41) # []"
    by (simp add: stale_def)
  have ok: "\<forall>g\<in>set [(''Name'', VString ''Eve'')]. snd (GetHeader (stale ''Eve'' 41) (fst g)) = None"
    by (simp add: stale_def GetHeaderTag_def legacyType_def)
  have err: "snd (GetHeader (stale ''Eve'' 41) (fst (''Age'', VInt TInt 41))) = Some ?e"
    by (simp add: stale_def GetHeaderTag_def legacyType_def)
  have m: "map_option fieldString \<circ> map_of [(''Name'', VString ''Eve'')] = [''Name'' \<mapsto> ''Eve'']"
    by (auto simp add: fun_eq_iff fieldString_def)
  from TableRow_header_failure [OF f ok err] m show ?thesis by simp
qed

text \<open>
  C2 as it is stated does not hold: for a struct whose header resolution fails on its
  second field, \<^verbatim>\<open>TableRow\<close> returns the error together with a row that holds the first
  field, and the same map once more where the header map would be.
\<close>

theorem partial_row_counterexample:
  "snd (snd (TableRow (stale ''Eve'' 41)))
     = Some (Error (''Invalid field '' @ [CHR 0x27] @ ''Age'' @ [CHR 0x27] @ '' in Legacy''))
   \<and> fst (TableRow (stale ''Eve'' 41)) ''Name'' = Some ''Eve''
   \<and> fst (TableRow (stale ''Eve'' 41)) \<noteq> Map.empty
   \<and> fst (snd (TableRow (stale ''Eve'' 41))) ''Name'' = Some ''Eve''
   \<and> fst (snd (TableRow (stale ''Eve'' 41))) \<noteq> Map.empty"
proof -
  have "TableRow (stale ''Eve'' 41) =
     ([''Name'' \<mapsto> ''Eve''], [''Name'' \<mapsto> ''Eve''],
      Some (Error (''Invalid field '' @ [CHR 0x27] @ ''Age'' @ [CHR 0x27] @ '' in Legacy'')))"
    by (simp add: TableRow_def stale_def GetHeaderTag_def legacyType_def FieldByName_def
        fieldString_def index_def TABLE_HEADER_TAG_def)
  then show ?thesis by simp
qed

subsection \<open>Stringification\<close>

lemma digit_nth: "k < 10 \<Longrightarrow> digitValue (''0123456789'' ! k) = k \<and> ''0123456789'' ! k \<in> set ''0123456789''"
proof -
  assume "k < 10"
  then have "k = 0 \<or> k = 1 \<or> k = 2 \<or> k = 3 \<or> k = 4 \<or> k = 5 \<or> k = 6 \<or> k = 7 \<or> k = 8 \<or> k = 9"
    by arith
  then show ?thesis by (elim disjE) (simp_all add: digitValue_def)
qed

lemma decimalValue_snoc: "decimalValue (s @ [c]) = 10 * decimalValue s + digitValue c"
  by (simp add: decimalValue_def)

lemma Sprintf_u_decimal:
  "Sprintf_u n \<noteq> [] \<and> set (Sprintf_u n) \<subseteq> set ''0123456789'' \<and> decimalValue (Sprintf_u n) = n"
proof (induction n rule: Sprintf_u.induct)
  case (1 n)
  show ?case
  proof (cases "n < 10")
    case True
    with digit_nth [of n] show ?thesis
      by (simp add: Sprintf_u.simps [of n] decimalValue_def)
  next
    case False
    have "n mod 10 < 10" by simp
    with False 1 digit_nth [of "n mod 10"] show ?thesis
      by (simp add: Sprintf_u.simps [of n] decimalValue_snoc)
  qed
qed

lemma fieldString_VInt: "fieldString (VInt t i) = Sprintf_d i"
  by (cases t) (simp_all add: fieldString_def)

lemma fieldString_VUint:
  "fieldString (VUint t u) = (if t = TUintptr then ''NO_SUPPORT'' else Sprintf_u u)"
  by (cases t) (simp_all add: fieldString_def NOT_SUPPORTED_def)

lemma fieldString_VOther: "fieldString (VOther k) = ''NO_SUPPORT''"
  by (cases k) (simp_all add: fieldString_def NOT_SUPPORTED_def)

text \<open>
  C3 (as amended). Stringification never fails and goes by the field's type: a text
  field maps to itself; a signed integer field of any size to its decimal string (a
  minus sign before the digits of a negative value); an unsigned integer field of type
  \<^verbatim>\<open>uint\<close>, \<^verbatim>\<open>uint8\<close>, \<^verbatim>\<open>uint16\<close>, \<^verbatim>\<open>uint32\<close> or \<^verbatim>\<open>uint64\<close> to its decimal string, whose
  digits denote the value; a boolean field to \<^verbatim>\<open>true\<close> or \<^verbatim>\<open>false\<close>; and a field of any
  other type, \<^verbatim>\<open>uintptr\<close> among them, to \<^verbatim>\<open>NO_SUPPORT\<close>. When header resolution succeeds
  for a struct (whose field names are distinct), every field has that string in the row.
\<close>

theorem fieldString_by_type:
  "fieldString (VString s) = s
   \<and> fieldString (VInt t i) = Sprintf_d i
   \<and> fieldString (VUint t' u) = (if t' = TUintptr then ''NO_SUPPORT'' else Sprintf_u u)
   \<and> fieldString (VBool b) = (if b then ''true'' else ''false'')
   \<and> fieldString (VOther k) = ''NO_SUPPORT''
   \<and> Sprintf_d i = (if i < 0 then CHR ''-'' # Sprintf_u (nat (- i)) else Sprintf_u (nat i))
   \<and> Sprintf_u u \<noteq> [] \<and> set (Sprintf_u u) \<subseteq> set ''0123456789'' \<and> decimalValue (Sprintf_u u) = u
   \<and> (headerErrors tbl = [] \<and> distinct (map fst (Fields tbl)) \<longrightarrow>
        snd (snd (TableRow tbl)) = None
        \<and> (\<forall>f\<in>set (Fields tbl). fst (TableRow tbl) (fst f) = Some (fieldString (snd f))))"
proof -
  have "snd (snd (TableRow tbl)) = None
        \<and> (\<forall>f\<in>set (Fields tbl). fst (TableRow tbl) (fst f) = Some (fieldString (snd f)))"
    if "headerErrors tbl = []" "distinct (map fst (Fields tbl))"
    using that by (force simp add: TableRow_ok)
  then show ?thesis
    using Sprintf_u_decimal [of u]
    by (simp add: fieldString_VInt fieldString_VUint fieldString_VOther Sprintf_d_def)
      (simp add: fieldString_def)
qed

theorem fieldString_by_type_witness:
  "fst (TableRow (person ''Alice'' 30)) ''Age'' = Some ''30''
   \<and> fst (TableRow (person ''Alice'' 30)) ''Name'' = Some ''Alice''"
proof -
  let ?p = "person ''Alice'' 30"
  have e: "headerErrors ?p = [] \<and> distinct (map fst (Fields ?p))"
    by (simp add: headerErrors_def person_def GetHeaderTag_def personType_def)
  have s: "Sprintf_d 30 = ''30''"
    by (simp add: Sprintf_d_def Sprintf_u.simps)
  from fieldString_by_type [of _ TInt 30 _ _ _ _ ?p, THEN conjunct2, THEN conjunct1] s
  have a: "fieldString (VInt TInt 30) = ''30''" by simp
  from fieldString_by_type [of "''Alice''" _ _ _ _ _ _ ?p, THEN conjunct1]
  have n: "fieldString (VString ''Alice'') = ''Alice''" .
  from fieldString_by_type [of "[]" TInt 0 TUint 0 True TMap ?p] e
  have "\<forall>f\<in>set (Fields ?p). fst (TableRow ?p) (fst f) = Some (fieldString (snd f))"
    by (elim conjE impE) simp_all
  then have "\<forall>f\<in>set [(''Name'', VString ''Alice''), (''Age'', VInt TInt 30)].
      fst (TableRow ?p) (fst f) = Some (fieldString (snd f))"
    by (simp add: person_def)
  with a n show ?thesis by simp
qed

text \<open>
  C3 as it is stated does not hold for the unsigned integer type \<^verbatim>\<open>uintptr\<close>, whose kind
  is not among the cases of the switch: a field of that type with value 5 maps to
  \<^verbatim>\<open>NO_SUPPORT\<close>, not to \<^verbatim>\<open>5\<close>.
\<close>

theorem uintptr_counterexample:
  "fieldString (VUint TUintptr 5) = ''NO_SUPPORT''
   \<and> Sprintf_u 5 = ''5''
   \<and> fieldString (VUint TUintptr 5) \<noteq> Sprintf_u 5
   \<and> TableRow fileHandle = ([''Fd'' \<mapsto> ''NO_SUPPORT''], [''Fd'' \<mapsto> ''FD''], None)"
  by (simp add: fieldString_def NOT_SUPPORTED_def Sprintf_u.simps TableRow_def fileHandle_def
      GetHeaderTag_def FieldByName_def index_def TABLE_HEADER_TAG_def)

subsection \<open>The entry points\<close>

lemma allErrors_Cons: "allErrors (item # tables) = headerErrors item @ allErrors tables"
  by (simp add: allErrors_def)

lemma GenerateTable_loop_eq:
  "GenerateTable_loop tables table headers =
     (case allErrors tables of
        [] \<Rightarrow> Inr (table @ map (\<lambda>item. fst (TableRow item)) tables,
                 if tables = [] then headers else fst (snd (TableRow (last tables))))
      | err # _ \<Rightarrow> Inl err)"
proof (induction tables arbitrary: table headers)
  case Nil
  then show ?case by (simp add: allErrors_def)
next
  case (Cons item tables)
  obtain row h e where t: "TableRow item = (row, h, e)" by (cases "TableRow item")
  with TableRow_error [of item] have e: "e = (case headerErrors item of [] \<Rightarrow> None | err # _ \<Rightarrow> Some err)"
    by simp
  show ?case
  proof (cases "headerErrors item")
    case Nil
    with t e Cons.IH show ?thesis by (simp add: allErrors_Cons split: list.splits)
  next
    case (Cons err errs)
    with t e show ?thesis by (simp add: allErrors_Cons)
  qed
qed

lemma GenerateCSV_loop_eq:
  "GenerateCSV_loop tables table =
     (case allErrors tables of
        [] \<Rightarrow> Inr (table @ map (\<lambda>item. fst (TableRow item)) tables)
      | err # _ \<Rightarrow> Inl err)"
proof (induction tables arbitrary: table)
  case Nil
  then show ?case by (simp add: allErrors_def)
next
  case (Cons item tables)
  obtain row h e where t: "TableRow item = (row, h, e)" by (cases "TableRow item")
  with TableRow_error [of item] have e: "e = (case headerErrors item of [] \<Rightarrow> None | err # _ \<Rightarrow> Some err)"
    by simp
  show ?case
  proof (cases "headerErrors item")
    case Nil
    with t e Cons.IH show ?thesis by (simp add: allErrors_Cons split: list.splits)
  next
    case (Cons err errs)
    with t e show ?thesis by (simp add: allErrors_Cons)
  qed
qed

lemma generateCSV_loop_WriteAll:
  "generateCSV_loop lib w data fields = WriteAll lib w (map (\<lambda>row. map (index row) fields) data)"
  by (induction data arbitrary: w) (simp_all split: prod.splits option.splits)

lemma allErrors_nonempty:
  assumes "item \<in> set tables" "f \<in> set (Fields item)" "snd (GetHeader item (fst f)) \<noteq> None"
  shows "allErrors tables \<noteq> []"
proof -
  from assms(2,3) have "headerErrors item \<noteq> []" by (auto simp add: headerErrors_Nil)
  with assms(1) show ?thesis by (auto simp add: allErrors_def)
qed

text \<open>
  C6. When header resolution fails for some field of some record of the list, both
  \<^verbatim>\<open>GenerateTable\<close> and \<^verbatim>\<open>GenerateCSV\<close> return an error and leave standard output as it
  was: nothing is printed. The error is the first one met, going through the records in
  order and through each record's fields in order.
\<close>

theorem header_error_no_output:
  assumes "item \<in> set tables" "f \<in> set (Fields item)" "snd (GetHeader item (fst f)) \<noteq> None"
  shows "allErrors tables \<noteq> []
     \<and> GenerateTable stdout tables fields = (stdout, Some (hd (allErrors tables)))
     \<and> GenerateCSV lib out tables fields = (out, Some (hd (allErrors tables)))"
proof -
  from assms have "allErrors tables \<noteq> []" by (rule allErrors_nonempty)
  then obtain err errs where "allErrors tables = err # errs" by (cases "allErrors tables") auto
  then show ?thesis
    by (simp add: GenerateTable_def GenerateCSV_def GenerateTable_loop_eq GenerateCSV_loop_eq)
qed

theorem header_error_no_output_witness:
  "GenerateTable ''$ '' [person ''Alice'' 30, stale ''Eve'' 41] [''Name'', ''Age'']
     = (''$ '', Some (Error (''Invalid field '' @ [CHR 0x27] @ ''Age'' @ [CHR 0x27] @ '' in Legacy'')))
   \<and> GenerateCSV deviceCsv (''$ '', True) [person ''Alice'' 30, stale ''Eve'' 41] [''Name'', ''Age'']
     = ((''$ '', True), Some (Error (''Invalid field '' @ [CHR 0x27] @ ''Age'' @ [CHR 0x27] @ '' in Legacy'')))"
proof -
  let ?tables = "[person ''Alice'' 30, stale ''Eve'' 41]"
  have 1: "stale ''Eve'' 41 \<in> set ?tables" by simp
  have 2: "(''Age'', VInt TInt 41) \<in> set (Fields (stale ''Eve'' 41))" by (simp add: stale_def)
  have 3: "snd (GetHeader (stale ''Eve'' 41) (fst (''Age'', VInt TInt 41))) \<noteq> None"
    by (simp add: stale_def GetHeaderTag_def legacyType_def)
  have e: "hd (allErrors ?tables)
      = Error (''Invalid field '' @ [CHR 0x27] @ ''Age'' @ [CHR 0x27] @ '' in Legacy'')"
    by (simp add: allErrors_def headerErrors_def List.map_filter_def person_def stale_def
        GetHeaderTag_def personType_def legacyType_def)
  from header_error_no_output [OF 1 2 3, of "''$ ''" "[''Name'', ''Age'']" deviceCsv "(''$ '', True)"] e
  show ?thesis by simp
qed

text \<open>
  C7. For a list of records that is not empty and whose headers all resolve,
  \<^verbatim>\<open>GenerateTable\<close> renders the rows of all records with the header map that \<^verbatim>\<open>TableRow\<close>
  gave for the last record: the header line printed is the one of that map.
\<close>

theorem last_header_map:
  assumes "tables \<noteq> []" "allErrors tables = []"
  shows "GenerateTable stdout tables fields =
      (generateTable stdout (map (\<lambda>item. fst (TableRow item)) tables)
         (fst (snd (TableRow (last tables)))) fields, None)
     \<and> generateTable stdout (map (\<lambda>item. fst (TableRow item)) tables)
         (fst (snd (TableRow (last tables)))) fields
       = stdout
         @ headerLine (map (\<lambda>item. fst (TableRow item)) tables) (fst (snd (TableRow (last tables)))) fields
         @ Repeat CHR ''=''
             (length (headerLine (map (\<lambda>item. fst (TableRow item)) tables)
                (fst (snd (TableRow (last tables)))) fields) - 1)
         @ [CHR 0x0A]
         @ concat (map (rowLine (map (\<lambda>item. fst (TableRow item)) tables)
                      (fst (snd (TableRow (last tables)))) fields)
                  (map (\<lambda>item. fst (TableRow item)) tables))"
  using assms by (simp add: GenerateTable_def GenerateTable_loop_eq generateTable_eq)

lemma TableRow_person:
  "TableRow (person name age)
     = ([''Name'' \<mapsto> name, ''Age'' \<mapsto> Sprintf_d age], [''Name'' \<mapsto> ''Name'', ''Age'' \<mapsto> ''Age''], None)"
  by (simp add: TableRow_def person_def GetHeaderTag_def personType_def FieldByName_def
      fieldString_def index_def TABLE_HEADER_TAG_def)

lemma TableRow_personne:
  "TableRow (personne name age)
     = ([''Name'' \<mapsto> name, ''Age'' \<mapsto> Sprintf_d age], [''Name'' \<mapsto> ''Nom'', ''Age'' \<mapsto> ''Ans''], None)"
  by (simp add: TableRow_def personne_def GetHeaderTag_def personneType_def FieldByName_def
      fieldString_def index_def TABLE_HEADER_TAG_def)

lemma headerErrors_person: "headerErrors (person name age) = []"
  by (simp add: headerErrors_def person_def GetHeaderTag_def personType_def)

lemma headerErrors_personne: "headerErrors (personne name age) = []"
  by (simp add: headerErrors_def personne_def GetHeaderTag_def personneType_def)

lemmas eval_table =
  generateTable_def headerLine_def rowLine_def colWidth_def headerWidth_def widen_def index_def
  Sprintf_fstring_def fmtCells_def padString_def Repeat_def runeSize_def Sprintf_d_def
  Sprintf_u.simps

theorem last_header_map_witness:
  "GenerateTable [] [person ''Alice'' 30, personne ''Bob'' 5] [''Name'', ''Age'']
     = (''Nom   | Ans'' @ [CHR 0x0A] @ ''==========='' @ [CHR 0x0A]
        @ ''Alice | 30 '' @ [CHR 0x0A] @ ''Bob   | 5  '' @ [CHR 0x0A], None)"
proof -
  let ?tables = "[person ''Alice'' 30, personne ''Bob'' 5]"
  have 1: "?tables \<noteq> []" by simp
  have 2: "allErrors ?tables = []"
    by (simp add: allErrors_def headerErrors_person headerErrors_personne)
  from last_header_map [OF 1 2, of "[]" "[''Name'', ''Age'']", THEN conjunct1]
  show ?thesis
    by (simp add: TableRow_person TableRow_personne) (simp add: eval_table)
qed

text \<open>
  C8. Over the same records, the loops of \<^verbatim>\<open>GenerateTable\<close> and \<^verbatim>\<open>GenerateCSV\<close> end with
  the same error or build the same rows, one \<^verbatim>\<open>TableRow\<close> result for each record. Both
  then take from each row the strings of the selected fields, the same list of values
  in both modes: the table prints each list through its format string after the header
  and the underline, the CSV output hands each list to the CSV writer.
\<close>

theorem same_rows_both_modes:
  "map_sum id fst (GenerateTable_loop tables [] Map.empty) = GenerateCSV_loop tables []
   \<and> GenerateCSV_loop tables [] =
       (case allErrors tables of
          [] \<Rightarrow> Inr (map (\<lambda>item. fst (TableRow item)) tables)
        | err # _ \<Rightarrow> Inl err)
   \<and> GenerateTable stdout tables fields =
       (case GenerateTable_loop tables [] Map.empty of
          Inl err \<Rightarrow> (stdout, Some err)
        | Inr (table, headers) \<Rightarrow>
            (stdout @ headerLine table headers fields
               @ Repeat CHR ''='' (length (headerLine table headers fields) - 1) @ [CHR 0x0A]
               @ concat (map (Sprintf_fstring (colWidth table headers fields)) (rowValues tables fields)),
             None))
   \<and> GenerateCSV lib out tables fields =
       (case GenerateCSV_loop tables [] of
          Inl err \<Rightarrow> (out, Some err)
        | Inr table \<Rightarrow> (Flush lib (fst (WriteAll lib (NewWriter lib out) (rowValues tables fields))), None))"
proof (cases "allErrors tables")
  case Nil
  then show ?thesis
    by (simp add: GenerateTable_loop_eq GenerateCSV_loop_eq GenerateTable_def GenerateCSV_def
        generateTable_eq generateCSV_def generateCSV_loop_WriteAll case_prod_beta
        rowLine_def rowValues_def comp_def)
next
  case (Cons err errs)
  then show ?thesis
    by (simp add: GenerateTable_loop_eq GenerateCSV_loop_eq GenerateTable_def GenerateCSV_def)
qed

theorem same_rows_both_modes_witness:
  "GenerateTable [] [person ''Alice'' 30, person ''Bob'' 5] [''Name'', ''Age'']
     = (''Name  | Age'' @ [CHR 0x0A] @ ''==========='' @ [CHR 0x0A]
        @ ''Alice | 30 '' @ [CHR 0x0A] @ ''Bob   | 5  '' @ [CHR 0x0A], None)
   \<and> GenerateCSV deviceCsv ([], True) [person ''Alice'' 30, person ''Bob'' 5] [''Name'', ''Age'']
     = ((''Alice,30'' @ [CHR 0x0A] @ ''Bob,5'' @ [CHR 0x0A], True), None)
   \<and> rowValues [person ''Alice'' 30, person ''Bob'' 5] [''Name'', ''Age'']
     = [[''Alice'', ''30''], [''Bob'', ''5'']]"
proof -
  let ?tables = "[person ''Alice'' 30, person ''Bob'' 5]"
  let ?fields = "[''Name'', ''Age'']"
  have v: "rowValues ?tables ?fields = [[''Alice'', ''30''], [''Bob'', ''5'']]"
    by (simp add: rowValues_def TableRow_person index_def Sprintf_d_def Sprintf_u.simps)
  note t = same_rows_both_modes [of ?tables "[]" ?fields deviceCsv "([], True)"]
  have "GenerateTable [] ?tables ?fields
     = (''Name  | Age'' @ [CHR 0x0A] @ ''==========='' @ [CHR 0x0A]
        @ ''Alice | 30 '' @ [CHR 0x0A] @ ''Bob   | 5  '' @ [CHR 0x0A], None)"
    by (simp add: t [THEN conjunct2, THEN conjunct2, THEN conjunct1] v TableRow_person eval_table)
  moreover have "GenerateCSV deviceCsv ([], True) ?tables ?fields
     = ((''Alice,30'' @ [CHR 0x0A] @ ''Bob,5'' @ [CHR 0x0A], True), None)"
    by (simp add: t [THEN conjunct2, THEN conjunct2, THEN conjunct2] v TableRow_person)
      (simp add: deviceCsv_def deviceWrite_def)
  ultimately show ?thesis using v by (simp only: simp_thms)
qed

text \<open>
  C9. Text rendering has no failure: \<^verbatim>\<open>generateTable\<close> returns nothing but the output,
  and prints the header line, the underline and every row whatever the maps hold. When
  a selected field has no entry in a row, or in the header map, its cell in that line
  is empty and padded: it is spaces only, as many as the column is wide.
\<close>

theorem missing_entry_empty_cell:
  assumes "i < length fields" "m \<in> set (fieldMap # data)" "m (fields ! i) = None"
  shows "fmtCells (colWidth data fieldMap fields) (map (index m) fields) ! i
           = replicate (colWidth data fieldMap fields ! i) CHR '' ''
     \<and> headerLine data fieldMap fields
         = Join (fmtCells (colWidth data fieldMap fields) (map (index fieldMap) fields)) '' | '' @ [CHR 0x0A]
     \<and> rowLine data fieldMap fields m
         = Join (fmtCells (colWidth data fieldMap fields) (map (index m) fields)) '' | '' @ [CHR 0x0A]
     \<and> generateTable stdout data fieldMap fields
         = stdout @ headerLine data fieldMap fields
             @ Repeat CHR ''='' (length (headerLine data fieldMap fields) - 1) @ [CHR 0x0A]
             @ concat (map (rowLine data fieldMap fields) data)"
proof -
  from assms(3) have "index m (fields ! i) = []" by (simp add: index_def)
  with assms(1) show ?thesis
    by (simp add: cell_nth colWidth_nth padString_def generateTable_eq headerLine_def rowLine_def
        Sprintf_fstring_def)
qed

theorem missing_entry_empty_cell_witness:
  "fmtCells (colWidth [[''Name'' \<mapsto> ''Alice'', ''Nick'' \<mapsto> ''Al''], [''Name'' \<mapsto> ''Bob'']]
               [''Name'' \<mapsto> ''Name''] [''Name'', ''Nick''])
       (map (index [''Name'' \<mapsto> ''Bob'']) [''Name'', ''Nick'']) ! 1 = ''  ''
   \<and> generateTable [] [[''Name'' \<mapsto> ''Alice'', ''Nick'' \<mapsto> ''Al''], [''Name'' \<mapsto> ''Bob'']]
        [''Name'' \<mapsto> ''Name''] [''Name'', ''Nick'']
       = ''Name  |   '' @ [CHR 0x0A] @ ''=========='' @ [CHR 0x0A]
         @ ''Alice | Al'' @ [CHR 0x0A] @ ''Bob   |   '' @ [CHR 0x0A]"
proof -
  let ?data = "[[''Name'' \<mapsto> ''Alice'', ''Nick'' \<mapsto> ''Al''], [''Name'' \<mapsto> ''Bob'']]"
  let ?hm = "[''Name'' \<mapsto> ''Name'']"
  let ?fields = "[''Name'', ''Nick'']"
  let ?bob = "[''Name'' \<mapsto> ''Bob'']"
  have 1: "(1::nat) < length ?fields" by simp
  have 2: "?bob \<in> set (?hm # ?data)" by simp
  have 3: "?bob (?fields ! 1) = None" by simp
  have w: "colWidth ?data ?hm ?fields ! 1 = 2"
    by (simp add: colWidth_def headerWidth_def widen_def index_def)
  note t = missing_entry_empty_cell [OF 1 2 3, of "[]"]
  from t have "fmtCells (colWidth ?data ?hm ?fields) (map (index ?bob) ?fields) ! 1
      = replicate (colWidth ?data ?hm ?fields ! 1) CHR '' ''"
    by (rule conjunct1)
  then have "fmtCells (colWidth ?data ?hm ?fields) (map (index ?bob) ?fields) ! 1
      = replicate 2 CHR '' ''"
    by (simp only: w)
  moreover have "replicate 2 CHR '' '' = ''  ''"
    by (simp add: numeral_2_eq_2)
  moreover have "generateTable [] ?data ?hm ?fields
       = ''Name  |   '' @ [CHR 0x0A] @ ''=========='' @ [CHR 0x0A]
         @ ''Alice | Al'' @ [CHR 0x0A] @ ''Bob   |   '' @ [CHR 0x0A]"
    by (simp add: eval_table)
  ultimately show ?thesis by (simp only: simp_thms)
qed

text \<open>
  \<^verbatim>\<open>GenerateCSV\<close> returns an error only from \<^verbatim>\<open>TableRow\<close>: whatever the writer does, the
  result is \<^verbatim>\<open>nil\<close> once the rows are built.
\<close>

lemma GenerateCSV_never_write_error:
  "allErrors tables = [] \<Longrightarrow> snd (GenerateCSV lib out tables fields) = None"
  by (simp add: GenerateCSV_def GenerateCSV_loop_eq)

text \<open>
  C1. The claim is that a write error during CSV emission comes back from
  \<^verbatim>\<open>GenerateCSV\<close>. On a device that rejects the write, \<^verbatim>\<open>generateCSV\<close> returns the write
  error, and \<^verbatim>\<open>GenerateCSV\<close>, which drops that result, returns \<^verbatim>\<open>nil\<close>.
\<close>

theorem GenerateCSV_write_error_lost:
  "generateCSV deviceCsv ([], False) [[''Name'' \<mapsto> ''Alice'', ''Age'' \<mapsto> ''30'']] [''Name'', ''Age'']
     = (([], False), Some (Error ''write /dev/stdout: no space left on device''))
   \<and> GenerateCSV deviceCsv ([], False) [person ''Alice'' 30] [''Name'', ''Age''] = (([], False), None)"
  by (simp add: generateCSV_def GenerateCSV_def deviceCsv_def deviceWrite_def TableRow_person
      index_def)

end
